theory Spec2Isabelle
  imports Complex_Main "HOL-Library.AList"
begin

section \<open>Data model (backend/models/schemas.py)\<close>

text \<open>
  Python \<open>str\<close> values are modelled as \<open>string\<close>; one list element stands for one
  code point, so \<open>length\<close> is Python's \<open>len\<close>. A \<open>datetime\<close> is a point on a
  totally ordered time line, modelled as an integer number of clock ticks.
\<close>

type_synonym datetime = int

datatype ClaimStatus =
    SUBMITTED
  | VALIDATING
  | FRAUD_CHECK
  | POLICY_CHECK
  | DOCUMENT_ANALYSIS
  | DECISION_PENDING
  | APPROVED
  | REJECTED
  | NEEDS_INFO

datatype ClaimType = HEALTH | AUTO | HOME | LIFE

text \<open>
  A Python \<open>float\<close>: a finite value (every finite double is a rational number), one of
  the two infinities, or NaN. The comparisons are those of IEEE 754, which Python and the
  field constraints \<open>gt\<close>, \<open>ge\<close>, \<open>le\<close> use: every comparison with NaN is false.
\<close>

datatype pyfloat = Finite rat | PosInf | NegInf | NaN

fun float_lt :: "pyfloat \<Rightarrow> pyfloat \<Rightarrow> bool" where
  "float_lt NaN _ = False"
| "float_lt _ NaN = False"
| "float_lt (Finite x) (Finite y) = (x < y)"
| "float_lt (Finite _) PosInf = True"
| "float_lt (Finite _) NegInf = False"
| "float_lt PosInf _ = False"
| "float_lt NegInf NegInf = False"
| "float_lt NegInf _ = True"

fun float_le :: "pyfloat \<Rightarrow> pyfloat \<Rightarrow> bool" where
  "float_le NaN _ = False"
| "float_le _ NaN = False"
| "float_le (Finite x) (Finite y) = (x \<le> y)"
| "float_le (Finite _) PosInf = True"
| "float_le (Finite _) NegInf = False"
| "float_le PosInf PosInf = True"
| "float_le PosInf _ = False"
| "float_le NegInf _ = True"

definition float_gt :: "pyfloat \<Rightarrow> pyfloat \<Rightarrow> bool" where
  "float_gt a b = float_lt b a"

definition float_ge :: "pyfloat \<Rightarrow> pyfloat \<Rightarrow> bool" where
  "float_ge a b = float_le b a"

text \<open>The values a \<open>Dict[str, Any]\<close> of agent metadata may hold.\<close>

datatype pyany = AnyNone | AnyBool bool | AnyInt int | AnyFloat pyfloat | AnyStr string

record ClaimSubmission =
  policy_number :: string
  claim_type :: ClaimType
  claim_amount :: pyfloat
  incident_date :: string
  description :: string
  claimant_name :: string
  claimant_email :: string
  documents :: "string list option"

record AgentResult =
  agent_name :: string
  status :: string
  confidence :: pyfloat
  findings :: string
  recommendations :: "string list option"
  metadata :: "(string \<times> pyany) list option"

record ClaimAnalysis =
  claim_id :: string
  validation_result :: "AgentResult option"
  fraud_result :: "AgentResult option"
  policy_result :: "AgentResult option"
  document_result :: "AgentResult option"
  final_decision :: "AgentResult option"
  overall_status :: ClaimStatus
  processing_time :: "pyfloat option"

record Claim =
  claim_id :: string
  submission :: ClaimSubmission
  status :: ClaimStatus
  created_at :: datetime
  updated_at :: datetime
  analysis :: "ClaimAnalysis option"

record ClaimResponse =
  claim_id :: string
  status :: ClaimStatus
  message :: string
  created_at :: datetime

record ClaimStatusResponse =
  claim_id :: string
  status :: ClaimStatus
  current_step :: string
  progress_percentage :: int
  analysis :: "ClaimAnalysis option"
  updated_at :: datetime

record AnalysisTriggerResponse =
  claim_id :: string
  message :: string
  status :: string

subsection \<open>Validation at construction\<close>

text \<open>
  Building a model object checks the constraints written in its \<open>Field\<close>s; a failed
  check raises a validation error that lists the offending fields, in declaration order.
  Every other field of the two classes has no constraint beyond its type. An argument
  with a default is \<open>None\<close> when the caller omits it.
\<close>

datatype ValidationError = ValidationError "string list"

definition default_to :: "'a \<Rightarrow> 'a option \<Rightarrow> 'a" where
  "default_to d arg = (case arg of None \<Rightarrow> d | Some v \<Rightarrow> v)"

definition ClaimSubmission_init ::
  "string \<Rightarrow> ClaimType \<Rightarrow> pyfloat \<Rightarrow> string \<Rightarrow> string \<Rightarrow> string \<Rightarrow> string \<Rightarrow>
   string list option option \<Rightarrow> ValidationError + ClaimSubmission" where
  "ClaimSubmission_init pn ct amount idate descr cname cemail docs =
     (let errors =
        (if float_gt amount (Finite 0) then [] else [''claim_amount'']) @
        (if 20 \<le> length descr then [] else [''description''])
      in if errors = [] then
           Inr \<lparr>policy_number = pn, claim_type = ct, claim_amount = amount,
                incident_date = idate, description = descr, claimant_name = cname,
                claimant_email = cemail, documents = default_to (Some []) docs\<rparr>
         else Inl (ValidationError errors))"

definition AgentResult_init ::
  "string \<Rightarrow> string \<Rightarrow> pyfloat \<Rightarrow> string \<Rightarrow> string list option option \<Rightarrow>
   (string \<times> pyany) list option option \<Rightarrow> ValidationError + AgentResult" where
  "AgentResult_init name st conf fnd recs meta =
     (if float_ge conf (Finite 0) \<and> float_le conf (Finite 1) then
        Inr \<lparr>agent_name = name, AgentResult.status = st, confidence = conf, findings = fnd,
             recommendations = default_to (Some []) recs,
             metadata = default_to (Some []) meta\<rparr>
      else Inl (ValidationError [''confidence'']))"

section \<open>The HTTP operations (backend/main.py)\<close>

text \<open>
  \<open>claims_db\<close> is a Python dictionary: keys are unique, iteration follows insertion
  order, and assigning to an existing key keeps its place. An association list with
  \<open>map_of\<close> for lookup and \<open>AList.update\<close> for assignment behaves so. A handler that
  holds a record taken from the dictionary and assigns to its fields changes the stored
  record in place: \<open>AList.map_entry\<close>.
\<close>

type_synonym claims_db = "(string \<times> Claim) list"

datatype HTTPException = HTTPException (status_code: nat) (detail: string)

text \<open>An exception escaping the orchestrator; \<open>str_of\<close> is Python's \<open>str(e)\<close>.\<close>

datatype PyException = PyException (str_of: string)

definition dict_get :: "('k \<times> 'v) list \<Rightarrow> 'k \<Rightarrow> 'v \<Rightarrow> 'v" where
  "dict_get d k dflt = (case map_of d k of None \<Rightarrow> dflt | Some v \<Rightarrow> v)"

definition not_found :: "string \<Rightarrow> HTTPException" where
  "not_found cid = HTTPException 404 (''Claim '' @ cid @ '' not found'')"

definition upper_char :: "char \<Rightarrow> char" where
  "upper_char c =
     (if 97 \<le> (of_char c :: nat) \<and> (of_char c :: nat) \<le> 122
      then char_of ((of_char c :: nat) - 32) else c)"

text \<open>
  \<open>submit_claim\<close>: the fresh \<open>uuid4().hex\<close> and the two readings of the clock are
  inputs of the model.
\<close>

definition submit_claim ::
  "string \<Rightarrow> datetime \<Rightarrow> datetime \<Rightarrow> claims_db \<Rightarrow> ClaimSubmission \<Rightarrow> claims_db \<times> ClaimResponse" where
  "submit_claim uuid_hex now1 now2 db claim =
     (let cid = ''CLM-'' @ map upper_char (take 8 uuid_hex);
          new_claim = \<lparr>Claim.claim_id = cid, submission = claim, Claim.status = SUBMITTED,
                       Claim.created_at = now1, Claim.updated_at = now2,
                       Claim.analysis = None\<rparr>
      in (AList.update cid new_claim db,
          \<lparr>ClaimResponse.claim_id = cid, ClaimResponse.status = SUBMITTED,
           ClaimResponse.message = ''Claim submitted successfully. Your claim ID is '' @ cid,
           ClaimResponse.created_at = Claim.created_at new_claim\<rparr>))"

definition status_progress :: "(ClaimStatus \<times> int) list" where
  "status_progress =
     [(SUBMITTED, 10), (VALIDATING, 20), (FRAUD_CHECK, 40), (POLICY_CHECK, 60),
      (DOCUMENT_ANALYSIS, 80), (DECISION_PENDING, 90), (APPROVED, 100), (REJECTED, 100),
      (NEEDS_INFO, 50)]"

definition current_step_map :: "(ClaimStatus \<times> string) list" where
  "current_step_map =
     [(SUBMITTED, ''Claim received and queued''),
      (VALIDATING, ''Validating claim information''),
      (FRAUD_CHECK, ''Analyzing for fraud indicators''),
      (POLICY_CHECK, ''Verifying policy coverage''),
      (DOCUMENT_ANALYSIS, ''Analyzing supporting documents''),
      (DECISION_PENDING, ''Making final decision''),
      (APPROVED, ''Claim approved''),
      (REJECTED, ''Claim rejected''),
      (NEEDS_INFO, ''Additional information required'')]"

definition get_claim_status :: "claims_db \<Rightarrow> string \<Rightarrow> HTTPException + ClaimStatusResponse" where
  "get_claim_status db cid =
     (case map_of db cid of
        None \<Rightarrow> Inl (not_found cid)
      | Some claim \<Rightarrow>
          Inr \<lparr>ClaimStatusResponse.claim_id = cid,
               ClaimStatusResponse.status = Claim.status claim,
               current_step = dict_get current_step_map (Claim.status claim) ''Processing'',
               progress_percentage = dict_get status_progress (Claim.status claim) 0,
               ClaimStatusResponse.analysis = Claim.analysis claim,
               ClaimStatusResponse.updated_at = Claim.updated_at claim\<rparr>)"

text \<open>The element \<open>list_claims\<close> builds for one stored claim, and the whole listing.\<close>

definition list_entry :: "Claim \<Rightarrow> ClaimStatusResponse" where
  "list_entry claim =
     \<lparr>ClaimStatusResponse.claim_id = Claim.claim_id claim,
      ClaimStatusResponse.status = Claim.status claim,
      current_step =
        (if Claim.status claim \<notin> set [APPROVED, REJECTED] then ''Processing'' else ''Complete''),
      progress_percentage =
        (if Claim.status claim \<in> set [APPROVED, REJECTED] then 100 else 50),
      ClaimStatusResponse.analysis = Claim.analysis claim,
      ClaimStatusResponse.updated_at = Claim.updated_at claim\<rparr>"

definition list_claims :: "claims_db \<Rightarrow> ClaimStatusResponse list" where
  "list_claims db = map (\<lambda>(k, claim). list_entry claim) db"

text \<open>
  \<open>analyze_claim\<close> suspends once, at \<open>await orchestrator.process_claim(...)\<close>.
  \<open>analyze_claim_enter\<close> is the handler up to that point: it raises the 404, returns the
  "skipped" response, or marks the claim as validating and awaits the orchestrator on the
  claim's submission.
\<close>

datatype entered =
    Raised HTTPException
  | Returned AnalysisTriggerResponse
  | Awaiting claims_db ClaimSubmission

definition analyze_claim_enter :: "datetime \<Rightarrow> claims_db \<Rightarrow> string \<Rightarrow> entered" where
  "analyze_claim_enter now db cid =
     (case map_of db cid of
        None \<Rightarrow> Raised (not_found cid)
      | Some claim \<Rightarrow>
          if Claim.status claim \<notin> set [SUBMITTED, NEEDS_INFO] then
            Returned \<lparr>AnalysisTriggerResponse.claim_id = cid,
                      AnalysisTriggerResponse.message =
                        ''Claim analysis already in progress or completed'',
                      AnalysisTriggerResponse.status = ''skipped''\<rparr>
          else
            Awaiting
              (AList.map_entry cid
                 (\<lambda>c. c\<lparr>Claim.status := VALIDATING, Claim.updated_at := now\<rparr>) db)
              (submission claim))"

text \<open>
  \<open>analyze_claim_resume\<close> is the handler from the moment the awaited call returns an
  analysis (\<open>Inr\<close>) or raises (\<open>Inl\<close>, caught by \<open>except Exception\<close>). It assigns to the
  fields of the claim object it already holds. How an f-string renders a member of the
  \<open>str\<close>-mixin enumeration depends on the Python version (the value before 3.11, the
  qualified member name from 3.11 on), so the rendering \<open>fmt\<close> is an input.
\<close>

definition analyze_claim_resume ::
  "(ClaimStatus \<Rightarrow> string) \<Rightarrow> datetime \<Rightarrow> claims_db \<Rightarrow> string \<Rightarrow> PyException + ClaimAnalysis \<Rightarrow>
   claims_db \<times> (HTTPException + AnalysisTriggerResponse)" where
  "analyze_claim_resume fmt now db cid outcome =
     (case outcome of
        Inr a \<Rightarrow>
          (AList.map_entry cid
             (\<lambda>c. c\<lparr>Claim.analysis := Some a,
                     Claim.status := overall_status a,
                     Claim.updated_at := now\<rparr>) db,
           Inr \<lparr>AnalysisTriggerResponse.claim_id = cid,
                AnalysisTriggerResponse.message =
                  ''Claim analysis completed. Status: '' @ fmt (overall_status a),
                AnalysisTriggerResponse.status = ''completed''\<rparr>)
      | Inl e \<Rightarrow>
          (AList.map_entry cid
             (\<lambda>c. c\<lparr>Claim.status := SUBMITTED, Claim.updated_at := now\<rparr>) db,
           Inl (HTTPException 500 (''Analysis failed: '' @ str_of e))))"

text \<open>
  One whole request, with nothing else running in between. The orchestrator is not part
  of these sources; \<open>process_claim\<close> stands for it: called on the submission and the
  identifier, it returns an analysis or raises. The two clock readings are inputs.
\<close>

definition analyze_claim ::
  "(ClaimStatus \<Rightarrow> string) \<Rightarrow> (ClaimSubmission \<Rightarrow> string \<Rightarrow> PyException + ClaimAnalysis) \<Rightarrow>
   datetime \<Rightarrow> datetime \<Rightarrow> claims_db \<Rightarrow> string \<Rightarrow>
   claims_db \<times> (HTTPException + AnalysisTriggerResponse)" where
  "analyze_claim fmt process_claim now1 now2 db cid =
     (case analyze_claim_enter now1 db cid of
        Raised e \<Rightarrow> (db, Inl e)
      | Returned r \<Rightarrow> (db, Inr r)
      | Awaiting db1 sub \<Rightarrow> analyze_claim_resume fmt now2 db1 cid (process_claim sub cid))"

text \<open>
  \<open>get_analysis_results\<close> returns a plain dictionary, kept here as the list of its items.
\<close>

datatype pyvalue =
    VStr string
  | VStatus ClaimStatus
  | VSubmission ClaimSubmission
  | VAnalysis ClaimAnalysis
  | VIsoformat datetime

definition get_analysis_results ::
  "claims_db \<Rightarrow> string \<Rightarrow> HTTPException + (string \<times> pyvalue) list" where
  "get_analysis_results db cid =
     (case map_of db cid of
        None \<Rightarrow> Inl (not_found cid)
      | Some claim \<Rightarrow>
          (case Claim.analysis claim of
             None \<Rightarrow>
               Inr [(''claim_id'', VStr cid),
                    (''status'', VStatus (Claim.status claim)),
                    (''message'',
                     VStr ''Analysis not yet completed. Please trigger analysis first.'')]
           | Some a \<Rightarrow>
               Inr [(''claim_id'', VStr cid),
                    (''status'', VStatus (Claim.status claim)),
                    (''submission'', VSubmission (submission claim)),
                    (''analysis'', VAnalysis a),
                    (''created_at'', VIsoformat (Claim.created_at claim)),
                    (''updated_at'', VIsoformat (Claim.updated_at claim))]))"

definition status_of :: "claims_db \<Rightarrow> string \<Rightarrow> ClaimStatus option" where
  "status_of db cid = map_option Claim.status (map_of db cid)"

definition analysis_of :: "claims_db \<Rightarrow> string \<Rightarrow> ClaimAnalysis option option" where
  "analysis_of db cid = map_option Claim.analysis (map_of db cid)"

subsection \<open>Requests interleaved on the event loop\<close>

text \<open>
  The handlers are coroutines of one event loop (\<open>uvicorn.run(app, ...)\<close>): a handler
  runs alone until it awaits, and \<open>analyze_claim\<close> awaits only the orchestrator. So a
  server state changes in two kinds of step: a new analyze request runs
  \<open>analyze_claim_enter\<close>, and a suspended request whose orchestrator call has ended runs
  \<open>analyze_claim_resume\<close>. \<open>running\<close> lists the suspended requests (task number and
  claim identifier), \<open>replies\<close> what each finished task answered.
\<close>

datatype event =
    Request string datetime
  | Finished nat "PyException + ClaimAnalysis" datetime

record server =
  claims_db :: claims_db
  running :: "(nat \<times> string) list"
  next_task :: nat
  replies :: "(nat \<times> (HTTPException + AnalysisTriggerResponse)) list"

fun step :: "(ClaimStatus \<Rightarrow> string) \<Rightarrow> server \<Rightarrow> event \<Rightarrow> server" where
  "step fmt s (Request cid now) =
     (case analyze_claim_enter now (claims_db s) cid of
        Raised e \<Rightarrow>
          s\<lparr>next_task := Suc (next_task s), replies := (next_task s, Inl e) # replies s\<rparr>
      | Returned r \<Rightarrow>
          s\<lparr>next_task := Suc (next_task s), replies := (next_task s, Inr r) # replies s\<rparr>
      | Awaiting db1 sub \<Rightarrow>
          s\<lparr>claims_db := db1, running := (next_task s, cid) # running s,
            next_task := Suc (next_task s)\<rparr>)"
| "step fmt s (Finished t outcome now) =
     (case map_of (running s) t of
        None \<Rightarrow> s
      | Some cid \<Rightarrow>
          (case analyze_claim_resume fmt now (claims_db s) cid outcome of
             (db2, r) \<Rightarrow>
               s\<lparr>claims_db := db2, running := AList.delete t (running s),
                 replies := (t, r) # replies s\<rparr>))"

definition start :: "claims_db \<Rightarrow> server" where
  "start db0 = \<lparr>claims_db = db0, running = [], next_task = 0, replies = []\<rparr>"

definition run :: "(ClaimStatus \<Rightarrow> string) \<Rightarrow> claims_db \<Rightarrow> event list \<Rightarrow> server" where
  "run fmt db0 es = foldl (step fmt) (start db0) es"

definition runs_on :: "server \<Rightarrow> string \<Rightarrow> (nat \<times> string) list" where
  "runs_on s cid = filter (\<lambda>p. snd p = cid) (running s)"

section \<open>The transition table of the specification\<close>

text \<open>
  Section 4.2 of the specification, in its words: the edges it lists, and its sentence
  that any status except the two terminal ones may re-enter \<open>validating\<close> through a fresh
  analyze request.
\<close>

definition spec_edge :: "ClaimStatus \<Rightarrow> ClaimStatus \<Rightarrow> bool" where
  "spec_edge a b =
     ((a, b) \<in> set
        [(SUBMITTED, VALIDATING), (NEEDS_INFO, VALIDATING),
         (VALIDATING, FRAUD_CHECK), (VALIDATING, NEEDS_INFO), (VALIDATING, REJECTED),
         (FRAUD_CHECK, POLICY_CHECK), (FRAUD_CHECK, REJECTED),
         (POLICY_CHECK, DOCUMENT_ANALYSIS), (POLICY_CHECK, REJECTED),
         (DOCUMENT_ANALYSIS, DECISION_PENDING),
         (DECISION_PENDING, APPROVED), (DECISION_PENDING, REJECTED)]
      \<or> (b = VALIDATING \<and> a \<notin> set [APPROVED, REJECTED]))"

section \<open>Concrete data for the examples\<close>

text \<open>The values of the enumeration members, as schemas.py gives them.\<close>

fun ClaimStatus_value :: "ClaimStatus \<Rightarrow> string" where
  "ClaimStatus_value SUBMITTED = ''submitted''"
| "ClaimStatus_value VALIDATING = ''validating''"
| "ClaimStatus_value FRAUD_CHECK = ''fraud_check''"
| "ClaimStatus_value POLICY_CHECK = ''policy_check''"
| "ClaimStatus_value DOCUMENT_ANALYSIS = ''document_analysis''"
| "ClaimStatus_value DECISION_PENDING = ''decision_pending''"
| "ClaimStatus_value APPROVED = ''approved''"
| "ClaimStatus_value REJECTED = ''rejected''"
| "ClaimStatus_value NEEDS_INFO = ''needs_info''"

definition ex_submission :: ClaimSubmission where
  "ex_submission =
     \<lparr>policy_number = ''POL-1'', claim_type = AUTO, claim_amount = Finite 50000,
      incident_date = ''2024-01-15'', description = ''Rear bumper damaged in a car park'',
      claimant_name = ''Ada'', claimant_email = ''ada@example.org'', documents = Some []\<rparr>"

definition ex_claim :: "string \<Rightarrow> ClaimStatus \<Rightarrow> Claim" where
  "ex_claim cid st =
     \<lparr>Claim.claim_id = cid, submission = ex_submission, Claim.status = st,
      Claim.created_at = 1, Claim.updated_at = 2, Claim.analysis = None\<rparr>"

definition ex_analysis :: "string \<Rightarrow> ClaimStatus \<Rightarrow> ClaimAnalysis" where
  "ex_analysis cid st =
     \<lparr>ClaimAnalysis.claim_id = cid, validation_result = None, fraud_result = None,
      policy_result = None, document_result = None, final_decision = None,
      overall_status = st, processing_time = None\<rparr>"

text \<open>Two orchestrators for the examples: one that always raises, one that always decides.\<close>

definition ex_failing :: "ClaimSubmission \<Rightarrow> string \<Rightarrow> PyException + ClaimAnalysis" where
  "ex_failing sub cid = Inl (PyException ''LLM service unavailable'')"

definition ex_deciding :: "ClaimStatus \<Rightarrow> ClaimSubmission \<Rightarrow> string \<Rightarrow> PyException + ClaimAnalysis" where
  "ex_deciding st sub cid = Inr (ex_analysis cid st)"

text \<open>A stored claim whose run completed at time \<open>t\<close> with overall status \<open>st\<close>.\<close>

definition ex_done :: "string \<Rightarrow> ClaimStatus \<Rightarrow> datetime \<Rightarrow> Claim" where
  "ex_done cid st t =
     \<lparr>Claim.claim_id = cid, submission = ex_submission, Claim.status = st,
      Claim.created_at = 1, Claim.updated_at = t,
      Claim.analysis = Some (ex_analysis cid st)\<rparr>"

section \<open>Auxiliary notions for the proofs\<close>

text \<open>
  The stored claim after a run that began on \<open>c\<close> ended with the given outcome at time
  \<open>now\<close>: what the two branches of \<open>analyze_claim_resume\<close> assign.
\<close>

definition outcome_claim :: "datetime \<Rightarrow> Claim \<Rightarrow> PyException + ClaimAnalysis \<Rightarrow> Claim" where
  "outcome_claim now c outcome =
     (case outcome of
        Inr a \<Rightarrow> c\<lparr>Claim.analysis := Some a, Claim.status := overall_status a,
                   Claim.updated_at := now\<rparr>
      | Inl e \<Rightarrow> c\<lparr>Claim.status := SUBMITTED, Claim.updated_at := now\<rparr>)"

text \<open>
  The invariant of the event loop: a suspended request is the only one on its claim, and
  that claim is stored with status \<open>validating\<close>.
\<close>

definition run_inv :: "server \<Rightarrow> bool" where
  "run_inv s \<longleftrightarrow>
     (\<forall>p \<in> set (running s).
        runs_on s (snd p) = [p] \<and> status_of (claims_db s) (snd p) = Some VALIDATING)"

section \<open>Properties\<close>

subsection \<open>Submission\<close>

text \<open>
  A submitted claim is stored under \<open>CLM-\<close> and the first eight hexadecimal digits of
  the UUID in upper case, with status \<open>submitted\<close> and no analysis.
\<close>

lemma submit_claim_example:
  "submit_claim ''3f2a9c1b7d4e4f0a8b6c5d4e3f2a1b0c'' 1 2 [] ex_submission =
     ([(''CLM-3F2A9C1B'', ex_claim ''CLM-3F2A9C1B'' SUBMITTED)],
      \<lparr>ClaimResponse.claim_id = ''CLM-3F2A9C1B'', ClaimResponse.status = SUBMITTED,
       ClaimResponse.message =
         ''Claim submitted successfully. Your claim ID is CLM-3F2A9C1B'',
       ClaimResponse.created_at = 1\<rparr>)"
  by code_simp

subsection \<open>Float comparisons\<close>

lemma float_gt_zero_iff:
  "float_gt a (Finite 0) \<longleftrightarrow> a = PosInf \<or> (\<exists>x. a = Finite x \<and> 0 < x)"
  by (cases a) (simp_all add: float_gt_def)

lemma float_unit_iff:
  "float_ge a (Finite 0) \<and> float_le a (Finite 1) \<longleftrightarrow> (\<exists>x. a = Finite x \<and> 0 \<le> x \<and> x \<le> 1)"
  by (cases a) (simp_all add: float_ge_def)

text \<open>
  C1. For a stored claim whose status is neither \<open>submitted\<close> nor \<open>needs_info\<close>, an
  analyze request returns the "skipped" response and leaves the whole claim table, hence
  the claim's status, analysis and timestamps, as it was; the orchestrator is not called.
\<close>

theorem analyze_claim_skips_other_statuses:
  assumes "map_of db cid = Some c"
    and "Claim.status c \<noteq> SUBMITTED" and "Claim.status c \<noteq> NEEDS_INFO"
  shows "analyze_claim fmt process_claim now1 now2 db cid =
           (db, Inr \<lparr>AnalysisTriggerResponse.claim_id = cid,
                     AnalysisTriggerResponse.message =
                       ''Claim analysis already in progress or completed'',
                     AnalysisTriggerResponse.status = ''skipped''\<rparr>)"
  using assms by (simp add: analyze_claim_def analyze_claim_enter_def)

theorem analyze_claim_skips_other_statuses_witness:
  "analyze_claim ClaimStatus_value (\<lambda>s k. Inr (ex_analysis k REJECTED)) 5 6
     [(''CLM-1A2B3C4D'', ex_claim ''CLM-1A2B3C4D'' APPROVED)] ''CLM-1A2B3C4D'' =
   ([(''CLM-1A2B3C4D'', ex_claim ''CLM-1A2B3C4D'' APPROVED)],
    Inr \<lparr>AnalysisTriggerResponse.claim_id = ''CLM-1A2B3C4D'',
         AnalysisTriggerResponse.message = ''Claim analysis already in progress or completed'',
         AnalysisTriggerResponse.status = ''skipped''\<rparr>)"
  using analyze_claim_skips_other_statuses
    [of "[(''CLM-1A2B3C4D'', ex_claim ''CLM-1A2B3C4D'' APPROVED)]" "''CLM-1A2B3C4D''"
        "ex_claim ''CLM-1A2B3C4D'' APPROVED" ClaimStatus_value
        "\<lambda>s k. Inr (ex_analysis k REJECTED)" 5 6]
  by (simp add: ex_claim_def)

text \<open>
  C6. For a claim identifier that is not in the claim table, the status lookup, the
  analyze request and the results request each raise the 404 "not found" error, and the
  analyze request leaves the claim table as it was (the two reads never write).
\<close>

theorem unknown_claim_not_found:
  assumes "map_of db cid = None"
  shows "get_claim_status db cid = Inl (HTTPException 404 (''Claim '' @ cid @ '' not found''))
       \<and> analyze_claim fmt process_claim now1 now2 db cid =
           (db, Inl (HTTPException 404 (''Claim '' @ cid @ '' not found'')))
       \<and> get_analysis_results db cid =
           Inl (HTTPException 404 (''Claim '' @ cid @ '' not found''))"
  using assms
  by (simp add: get_claim_status_def analyze_claim_def analyze_claim_enter_def
      get_analysis_results_def not_found_def)

theorem unknown_claim_not_found_witness:
  "get_claim_status [(''CLM-1'', ex_claim ''CLM-1'' SUBMITTED)] ''CLM-2'' =
     Inl (HTTPException 404 ''Claim CLM-2 not found'')
   \<and> analyze_claim ClaimStatus_value (\<lambda>s k. Inr (ex_analysis k APPROVED)) 5 6
       [(''CLM-1'', ex_claim ''CLM-1'' SUBMITTED)] ''CLM-2'' =
     ([(''CLM-1'', ex_claim ''CLM-1'' SUBMITTED)],
      Inl (HTTPException 404 ''Claim CLM-2 not found''))
   \<and> get_analysis_results [(''CLM-1'', ex_claim ''CLM-1'' SUBMITTED)] ''CLM-2'' =
     Inl (HTTPException 404 ''Claim CLM-2 not found'')"
  using unknown_claim_not_found
    [of "[(''CLM-1'', ex_claim ''CLM-1'' SUBMITTED)]" "''CLM-2''" ClaimStatus_value
        "\<lambda>s k. Inr (ex_analysis k APPROVED)" 5 6]
  by simp

text \<open>
  C9. For a stored claim whose analysis is empty, the results request returns a normal
  response holding the claim identifier, the current status and the message that asks
  to trigger the analysis first.
\<close>

theorem results_before_analysis:
  assumes "map_of db cid = Some c" and "Claim.analysis c = None"
  shows "get_analysis_results db cid =
           Inr [(''claim_id'', VStr cid),
                (''status'', VStatus (Claim.status c)),
                (''message'',
                 VStr ''Analysis not yet completed. Please trigger analysis first.'')]"
  using assms by (simp add: get_analysis_results_def)

theorem results_before_analysis_witness:
  "get_analysis_results [(''CLM-1'', ex_claim ''CLM-1'' SUBMITTED)] ''CLM-1'' =
     Inr [(''claim_id'', VStr ''CLM-1''),
          (''status'', VStatus SUBMITTED),
          (''message'', VStr ''Analysis not yet completed. Please trigger analysis first.'')]"
  using results_before_analysis
    [of "[(''CLM-1'', ex_claim ''CLM-1'' SUBMITTED)]" "''CLM-1''" "ex_claim ''CLM-1'' SUBMITTED"]
  by (simp add: ex_claim_def)

text \<open>
  C7. Building a \<open>ClaimSubmission\<close> succeeds exactly when the amount is greater than 0
  (a positive finite value or plus infinity; NaN is refused) and the description has at
  least 20 characters; building an \<open>AgentResult\<close> succeeds exactly when the confidence
  is a finite value between 0 and 1 inclusive. Every other value raises the validation
  error.
\<close>

theorem construction_checks_bounds:
  "((\<exists>s. ClaimSubmission_init pn ct amount idate descr cname cemail docs = Inr s)
      \<longleftrightarrow> float_gt amount (Finite 0) \<and> 20 \<le> length descr)
   \<and> ((\<exists>e. ClaimSubmission_init pn ct amount idate descr cname cemail docs = Inl e)
      \<longleftrightarrow> \<not> (float_gt amount (Finite 0) \<and> 20 \<le> length descr))
   \<and> (float_gt amount (Finite 0) \<longleftrightarrow> amount = PosInf \<or> (\<exists>x. amount = Finite x \<and> 0 < x))
   \<and> ((\<exists>r. AgentResult_init name st conf fnd recs meta = Inr r)
      \<longleftrightarrow> float_ge conf (Finite 0) \<and> float_le conf (Finite 1))
   \<and> ((\<exists>e. AgentResult_init name st conf fnd recs meta = Inl e)
      \<longleftrightarrow> \<not> (float_ge conf (Finite 0) \<and> float_le conf (Finite 1)))
   \<and> (float_ge conf (Finite 0) \<and> float_le conf (Finite 1)
      \<longleftrightarrow> (\<exists>x. conf = Finite x \<and> 0 \<le> x \<and> x \<le> 1))"
proof -
  have 1: "(\<exists>s. ClaimSubmission_init pn ct amount idate descr cname cemail docs = Inr s)
      \<longleftrightarrow> float_gt amount (Finite 0) \<and> 20 \<le> length descr"
    by (simp add: ClaimSubmission_init_def Let_def)
  have 2: "(\<exists>e. ClaimSubmission_init pn ct amount idate descr cname cemail docs = Inl e)
      \<longleftrightarrow> \<not> (float_gt amount (Finite 0) \<and> 20 \<le> length descr)"
    by (simp add: ClaimSubmission_init_def Let_def)
  have 3: "(\<exists>r. AgentResult_init name st conf fnd recs meta = Inr r)
      \<longleftrightarrow> float_ge conf (Finite 0) \<and> float_le conf (Finite 1)"
    by (simp add: AgentResult_init_def)
  have 4: "(\<exists>e. AgentResult_init name st conf fnd recs meta = Inl e)
      \<longleftrightarrow> \<not> (float_ge conf (Finite 0) \<and> float_le conf (Finite 1))"
    by (simp add: AgentResult_init_def)
  show ?thesis
    using 1 2 3 4 float_gt_zero_iff [of amount] float_unit_iff [of conf] by blast
qed

theorem construction_checks_bounds_witness:
  "(\<exists>s. ClaimSubmission_init ''POL-1'' AUTO (Finite 50000) ''2024-01-15''
          ''Rear bumper damaged in a car park'' ''Ada'' ''ada@example.org'' None = Inr s)
   \<and> (\<exists>e. ClaimSubmission_init ''POL-1'' AUTO (Finite 0) ''2024-01-15''
          ''Rear bumper damaged in a car park'' ''Ada'' ''ada@example.org'' None = Inl e)
   \<and> (\<exists>e. ClaimSubmission_init ''POL-1'' AUTO (Finite 50000) ''2024-01-15''
          ''too short'' ''Ada'' ''ada@example.org'' None = Inl e)
   \<and> (\<exists>r. AgentResult_init ''fraud'' ''passed'' (Finite 1) ''clean'' None None = Inr r)
   \<and> (\<exists>e. AgentResult_init ''fraud'' ''passed'' (Finite (3 / 2)) ''clean'' None None = Inl e)
   \<and> (\<exists>e. AgentResult_init ''fraud'' ''passed'' NaN ''clean'' None None = Inl e)"
  using
    construction_checks_bounds
      [of "''POL-1''" AUTO "Finite 50000" "''2024-01-15''"
          "''Rear bumper damaged in a car park''" "''Ada''" "''ada@example.org''" None
          "''fraud''" "''passed''" "Finite 1" "''clean''" None None]
    construction_checks_bounds
      [of "''POL-1''" AUTO "Finite 0" "''2024-01-15''"
          "''Rear bumper damaged in a car park''" "''Ada''" "''ada@example.org''" None
          "''fraud''" "''passed''" "Finite (3 / 2)" "''clean''" None None]
    construction_checks_bounds
      [of "''POL-1''" AUTO "Finite 50000" "''2024-01-15''"
          "''too short''" "''Ada''" "''ada@example.org''" None
          "''fraud''" "''passed''" NaN "''clean''" None None]
  by (simp add: float_gt_def float_ge_def)

subsection \<open>The two read operations\<close>

lemma map_of_nth_distinct:
  "distinct (map fst xs) \<Longrightarrow> i < length xs \<Longrightarrow> xs ! i = (k, v) \<Longrightarrow> map_of xs k = Some v"
  by (metis map_of_is_SomeI nth_mem)

lemma single_lookup_progress:
  "dict_get status_progress st 0 =
     (case st of SUBMITTED \<Rightarrow> 10 | VALIDATING \<Rightarrow> 20 | FRAUD_CHECK \<Rightarrow> 40 | POLICY_CHECK \<Rightarrow> 60
      | DOCUMENT_ANALYSIS \<Rightarrow> 80 | DECISION_PENDING \<Rightarrow> 90 | APPROVED \<Rightarrow> 100 | REJECTED \<Rightarrow> 100
      | NEEDS_INFO \<Rightarrow> 50)"
  by (cases st) (simp_all add: dict_get_def status_progress_def)

text \<open>
  C10. For the claim stored at any position of the claim table, the entry \<open>list_claims\<close>
  returns at that position reports 100 and "Complete" exactly when the status is
  \<open>approved\<close> or \<open>rejected\<close>, and 50 and "Processing" for every other status. So for a
  status that is neither terminal nor \<open>needs_info\<close>, \<open>get_claim_status\<close> on the same
  claim reports another progress value (10 for \<open>submitted\<close>).
\<close>

theorem list_claims_progress:
  assumes "distinct (map fst db)" and "i < length db" and "db ! i = (cid, c)"
  shows "length (list_claims db) = length db
       \<and> ((progress_percentage (list_claims db ! i) = 100
            \<and> current_step (list_claims db ! i) = ''Complete'')
           \<longleftrightarrow> Claim.status c \<in> {APPROVED, REJECTED})
       \<and> (Claim.status c \<notin> {APPROVED, REJECTED} \<longrightarrow>
            progress_percentage (list_claims db ! i) = 50
            \<and> current_step (list_claims db ! i) = ''Processing'')
       \<and> (Claim.status c \<notin> {APPROVED, REJECTED, NEEDS_INFO} \<longrightarrow>
            (\<exists>r. get_claim_status db cid = Inr r
                 \<and> progress_percentage r \<noteq> progress_percentage (list_claims db ! i)))
       \<and> (Claim.status c = SUBMITTED \<longrightarrow>
            (\<exists>r. get_claim_status db cid = Inr r \<and> progress_percentage r = 10))"
proof -
  have e: "list_claims db ! i = list_entry c"
    using assms(2,3) by (simp add: list_claims_def)
  have m: "map_of db cid = Some c"
    using assms by (rule map_of_nth_distinct)
  have g: "get_claim_status db cid =
             Inr \<lparr>ClaimStatusResponse.claim_id = cid,
                  ClaimStatusResponse.status = Claim.status c,
                  current_step = dict_get current_step_map (Claim.status c) ''Processing'',
                  progress_percentage = dict_get status_progress (Claim.status c) 0,
                  ClaimStatusResponse.analysis = Claim.analysis c,
                  ClaimStatusResponse.updated_at = Claim.updated_at c\<rparr>"
    using m by (simp add: get_claim_status_def)
  have 1: "length (list_claims db) = length db"
    by (simp add: list_claims_def)
  have 2: "(progress_percentage (list_entry c) = 100 \<and> current_step (list_entry c) = ''Complete'')
           \<longleftrightarrow> Claim.status c \<in> {APPROVED, REJECTED}"
    by (simp add: list_entry_def)
  have 3: "Claim.status c \<notin> {APPROVED, REJECTED} \<longrightarrow>
            progress_percentage (list_entry c) = 50 \<and> current_step (list_entry c) = ''Processing''"
    by (simp add: list_entry_def)
  have 4: "Claim.status c \<notin> {APPROVED, REJECTED, NEEDS_INFO} \<longrightarrow>
            dict_get status_progress (Claim.status c) 0 \<noteq> progress_percentage (list_entry c)"
    by (cases "Claim.status c") (simp_all add: single_lookup_progress list_entry_def)
  have 5: "Claim.status c = SUBMITTED \<longrightarrow> dict_get status_progress (Claim.status c) 0 = 10"
    by (simp add: single_lookup_progress)
  show ?thesis
    using 1 2 3 4 5 by (simp add: e g)
qed

theorem list_claims_progress_witness:
  "length (list_claims [(''CLM-1'', ex_claim ''CLM-1'' APPROVED),
                        (''CLM-2'', ex_claim ''CLM-2'' SUBMITTED)]) = 2
   \<and> progress_percentage (list_claims [(''CLM-1'', ex_claim ''CLM-1'' APPROVED),
                        (''CLM-2'', ex_claim ''CLM-2'' SUBMITTED)] ! 1) = 50
   \<and> current_step (list_claims [(''CLM-1'', ex_claim ''CLM-1'' APPROVED),
                        (''CLM-2'', ex_claim ''CLM-2'' SUBMITTED)] ! 1) = ''Processing''
   \<and> (\<exists>r. get_claim_status [(''CLM-1'', ex_claim ''CLM-1'' APPROVED),
                        (''CLM-2'', ex_claim ''CLM-2'' SUBMITTED)] ''CLM-2'' = Inr r
          \<and> progress_percentage r = 10)
   \<and> progress_percentage (list_claims [(''CLM-1'', ex_claim ''CLM-1'' APPROVED),
                        (''CLM-2'', ex_claim ''CLM-2'' SUBMITTED)] ! 0) = 100
   \<and> current_step (list_claims [(''CLM-1'', ex_claim ''CLM-1'' APPROVED),
                        (''CLM-2'', ex_claim ''CLM-2'' SUBMITTED)] ! 0) = ''Complete''"
  using
    list_claims_progress
      [of "[(''CLM-1'', ex_claim ''CLM-1'' APPROVED), (''CLM-2'', ex_claim ''CLM-2'' SUBMITTED)]"
          1 "''CLM-2''" "ex_claim ''CLM-2'' SUBMITTED"]
    list_claims_progress
      [of "[(''CLM-1'', ex_claim ''CLM-1'' APPROVED), (''CLM-2'', ex_claim ''CLM-2'' SUBMITTED)]"
          0 "''CLM-1''" "ex_claim ''CLM-1'' APPROVED"]
  by (simp add: ex_claim_def)


subsection \<open>One analyze request\<close>

lemma map_fst_map_entry: "map fst (AList.map_entry k f xs) = map fst xs"
  by (induction xs) auto

lemma status_of_map_entry:
  "status_of (AList.map_entry cid f db) =
     (\<lambda>k. if k = cid then map_option (\<lambda>c. Claim.status (f c)) (map_of db cid) else status_of db k)"
  by (rule ext) (simp add: status_of_def map_of_map_entry split: option.splits)

lemma analyze_claim_enter_runs:
  assumes "map_of db cid = Some c" and "Claim.status c \<in> {SUBMITTED, NEEDS_INFO}"
  shows "analyze_claim_enter now db cid =
           Awaiting (AList.map_entry cid
                       (\<lambda>c. c\<lparr>Claim.status := VALIDATING, Claim.updated_at := now\<rparr>) db)
                    (submission c)"
  using assms by (auto simp: analyze_claim_enter_def)

text \<open>
  C4, as stated, fails in one clause: \<open>updated_at\<close> is assigned whatever the clock reads
  after the run, and \<open>datetime.now()\<close> is a naive wall-clock reading that may lie before
  the stored value. Here a run that is answered "completed" takes \<open>updated_at\<close> from 2
  back to 1.
\<close>

theorem completed_run_advances_updated_at_counterexample:
  "snd (analyze_claim ClaimStatus_value (ex_deciding APPROVED) 0 1
          [(''CLM-1'', ex_claim ''CLM-1'' SUBMITTED)] ''CLM-1'') =
     Inr \<lparr>AnalysisTriggerResponse.claim_id = ''CLM-1'',
          AnalysisTriggerResponse.message = ''Claim analysis completed. Status: approved'',
          AnalysisTriggerResponse.status = ''completed''\<rparr>
   \<and> map_option Claim.updated_at
       (map_of [(''CLM-1'', ex_claim ''CLM-1'' SUBMITTED)] ''CLM-1'') = Some 2
   \<and> map_option Claim.updated_at
       (map_of (fst (analyze_claim ClaimStatus_value (ex_deciding APPROVED) 0 1
                       [(''CLM-1'', ex_claim ''CLM-1'' SUBMITTED)] ''CLM-1'')) ''CLM-1'') = Some 1
   \<and> \<not> (Claim.updated_at (ex_claim ''CLM-1'' SUBMITTED)
          < Claim.updated_at
              (the (map_of (fst (analyze_claim ClaimStatus_value (ex_deciding APPROVED) 0 1
                                   [(''CLM-1'', ex_claim ''CLM-1'' SUBMITTED)] ''CLM-1''))
                      ''CLM-1'')))"
  by (simp add: analyze_claim_def analyze_claim_enter_def analyze_claim_resume_def
      ex_claim_def ex_deciding_def ex_analysis_def)

text \<open>
  C4, amended. When an analyze request on a stored claim in \<open>submitted\<close> or \<open>needs_info\<close>
  runs and the orchestrator returns an analysis, the caller receives the "completed"
  response whose message names the analysis's overall status, and the stored claim
  afterwards is the old one with that analysis in its analysis field, the analysis's
  overall status as status, and \<open>updated_at\<close> set to the clock reading taken after the
  run, whether or not that reading is later than the stored one. No other claim and no
  key changes.
\<close>

theorem analyze_claim_completed:
  assumes "map_of db cid = Some c" and "Claim.status c \<in> {SUBMITTED, NEEDS_INFO}"
    and "process_claim (submission c) cid = Inr a"
  shows "snd (analyze_claim fmt process_claim now1 now2 db cid) =
           Inr \<lparr>AnalysisTriggerResponse.claim_id = cid,
                AnalysisTriggerResponse.message =
                  ''Claim analysis completed. Status: '' @ fmt (overall_status a),
                AnalysisTriggerResponse.status = ''completed''\<rparr>
       \<and> map_of (fst (analyze_claim fmt process_claim now1 now2 db cid)) cid =
           Some (c\<lparr>Claim.analysis := Some a, Claim.status := overall_status a,
                   Claim.updated_at := now2\<rparr>)
       \<and> (\<forall>k. k \<noteq> cid \<longrightarrow>
             map_of (fst (analyze_claim fmt process_claim now1 now2 db cid)) k = map_of db k)
       \<and> map fst (fst (analyze_claim fmt process_claim now1 now2 db cid)) = map fst db"
  using assms
  by (simp add: analyze_claim_def analyze_claim_enter_runs analyze_claim_resume_def
      map_of_map_entry map_fst_map_entry)

theorem analyze_claim_completed_witness:
  "snd (analyze_claim ClaimStatus_value (ex_deciding APPROVED) 5 6
          [(''CLM-1'', ex_claim ''CLM-1'' SUBMITTED)] ''CLM-1'') =
     Inr \<lparr>AnalysisTriggerResponse.claim_id = ''CLM-1'',
          AnalysisTriggerResponse.message = ''Claim analysis completed. Status: approved'',
          AnalysisTriggerResponse.status = ''completed''\<rparr>
   \<and> map_of (fst (analyze_claim ClaimStatus_value (ex_deciding APPROVED) 5 6
          [(''CLM-1'', ex_claim ''CLM-1'' SUBMITTED)] ''CLM-1'')) ''CLM-1'' =
     Some \<lparr>Claim.claim_id = ''CLM-1'', submission = ex_submission, Claim.status = APPROVED,
           Claim.created_at = 1, Claim.updated_at = 6,
           Claim.analysis = Some (ex_analysis ''CLM-1'' APPROVED)\<rparr>"
  using analyze_claim_completed
    [of "[(''CLM-1'', ex_claim ''CLM-1'' SUBMITTED)]" "''CLM-1''" "ex_claim ''CLM-1'' SUBMITTED"
        "ex_deciding APPROVED" "ex_analysis ''CLM-1'' APPROVED" ClaimStatus_value 5 6]
  by (simp add: ex_claim_def ex_deciding_def ex_analysis_def)

text \<open>
  C2, as stated, fails: a claim in \<open>needs_info\<close> whose run raises is left in \<open>submitted\<close>,
  not in the status it had before the run.
\<close>

theorem failed_run_keeps_status_counterexample:
  "status_of [(''CLM-1'', ex_claim ''CLM-1'' NEEDS_INFO)] ''CLM-1'' = Some NEEDS_INFO
   \<and> analyze_claim ClaimStatus_value ex_failing 5 6
       [(''CLM-1'', ex_claim ''CLM-1'' NEEDS_INFO)] ''CLM-1'' =
     ([(''CLM-1'', (ex_claim ''CLM-1'' NEEDS_INFO)
                     \<lparr>Claim.status := SUBMITTED, Claim.updated_at := 6\<rparr>)],
      Inl (HTTPException 500 ''Analysis failed: LLM service unavailable''))
   \<and> status_of (fst (analyze_claim ClaimStatus_value ex_failing 5 6
       [(''CLM-1'', ex_claim ''CLM-1'' NEEDS_INFO)] ''CLM-1'')) ''CLM-1''
     \<noteq> status_of [(''CLM-1'', ex_claim ''CLM-1'' NEEDS_INFO)] ''CLM-1''"
  by (simp add: status_of_def analyze_claim_def analyze_claim_enter_def
      analyze_claim_resume_def ex_claim_def ex_failing_def)

text \<open>
  C2, amended. When the orchestrator raises during an analyze request on a stored claim in
  \<open>submitted\<close> or \<open>needs_info\<close>, the caller receives the HTTP 500 error "Analysis failed:"
  followed by the exception's text, and the stored claim afterwards is the old one with
  its status reset to \<open>submitted\<close> (whatever it was before) and \<open>updated_at\<close> set to the
  clock reading taken in the handler; its analysis and other fields, every other claim
  and the keys are unchanged.
\<close>

theorem analyze_claim_failed:
  assumes "map_of db cid = Some c" and "Claim.status c \<in> {SUBMITTED, NEEDS_INFO}"
    and "process_claim (submission c) cid = Inl e"
  shows "snd (analyze_claim fmt process_claim now1 now2 db cid) =
           Inl (HTTPException 500 (''Analysis failed: '' @ str_of e))
       \<and> map_of (fst (analyze_claim fmt process_claim now1 now2 db cid)) cid =
           Some (c\<lparr>Claim.status := SUBMITTED, Claim.updated_at := now2\<rparr>)
       \<and> (\<forall>k. k \<noteq> cid \<longrightarrow>
             map_of (fst (analyze_claim fmt process_claim now1 now2 db cid)) k = map_of db k)
       \<and> map fst (fst (analyze_claim fmt process_claim now1 now2 db cid)) = map fst db"
  using assms
  by (simp add: analyze_claim_def analyze_claim_enter_runs analyze_claim_resume_def
      map_of_map_entry map_fst_map_entry)

theorem analyze_claim_failed_witness:
  "snd (analyze_claim ClaimStatus_value ex_failing 5 6
          [(''CLM-1'', ex_claim ''CLM-1'' NEEDS_INFO)] ''CLM-1'') =
     Inl (HTTPException 500 ''Analysis failed: LLM service unavailable'')
   \<and> map_of (fst (analyze_claim ClaimStatus_value ex_failing 5 6
          [(''CLM-1'', ex_claim ''CLM-1'' NEEDS_INFO)] ''CLM-1'')) ''CLM-1'' =
     Some \<lparr>Claim.claim_id = ''CLM-1'', submission = ex_submission, Claim.status = SUBMITTED,
           Claim.created_at = 1, Claim.updated_at = 6, Claim.analysis = None\<rparr>"
  using analyze_claim_failed
    [of "[(''CLM-1'', ex_claim ''CLM-1'' NEEDS_INFO)]" "''CLM-1''" "ex_claim ''CLM-1'' NEEDS_INFO"
        ex_failing "PyException ''LLM service unavailable''" ClaimStatus_value 5 6]
  by (simp add: ex_claim_def ex_failing_def)

subsection \<open>Status changes\<close>

text \<open>
  C3, as stated, fails: a run that raises moves the claim from \<open>validating\<close> back to
  \<open>submitted\<close>, and a run that succeeds moves it from \<open>validating\<close> straight to the
  analysis's overall status (here \<open>approved\<close>); neither is an edge of the table of
  section 4.2.
\<close>

theorem status_changes_follow_table_counterexample:
  "status_of [(''CLM-1'', ex_claim ''CLM-1'' SUBMITTED)] ''CLM-1'' = Some SUBMITTED
   \<and> analyze_claim_enter 5 [(''CLM-1'', ex_claim ''CLM-1'' SUBMITTED)] ''CLM-1'' =
       Awaiting [(''CLM-1'', (ex_claim ''CLM-1'' SUBMITTED)
                               \<lparr>Claim.status := VALIDATING, Claim.updated_at := 5\<rparr>)]
                ex_submission
   \<and> status_of (fst (analyze_claim_resume ClaimStatus_value 6
         [(''CLM-1'', (ex_claim ''CLM-1'' SUBMITTED)
                        \<lparr>Claim.status := VALIDATING, Claim.updated_at := 5\<rparr>)]
         ''CLM-1'' (ex_failing ex_submission ''CLM-1''))) ''CLM-1'' = Some SUBMITTED
   \<and> \<not> spec_edge VALIDATING SUBMITTED
   \<and> status_of (fst (analyze_claim_resume ClaimStatus_value 6
         [(''CLM-1'', (ex_claim ''CLM-1'' SUBMITTED)
                        \<lparr>Claim.status := VALIDATING, Claim.updated_at := 5\<rparr>)]
         ''CLM-1'' (ex_deciding APPROVED ex_submission ''CLM-1''))) ''CLM-1'' = Some APPROVED
   \<and> \<not> spec_edge VALIDATING APPROVED"
  by (simp add: status_of_def analyze_claim_enter_def analyze_claim_resume_def ex_claim_def
      ex_failing_def ex_deciding_def ex_analysis_def spec_edge_def)

text \<open>
  C3, amended. An analyze request on a stored claim changes statuses in these ways only.
  If the status is neither \<open>submitted\<close> nor \<open>needs_info\<close> the request returns at once and
  nothing changes. Otherwise the handler first sets this claim's status to \<open>validating\<close>
  and awaits the orchestrator on the claim's submission; when that call ends, it sets the
  status to the overall status of the returned analysis, or to \<open>submitted\<close> if the call
  raised. The status of every other claim stays as it was.
\<close>

theorem analyze_claim_status_changes:
  assumes "map_of db cid = Some c"
  shows "(Claim.status c \<notin> {SUBMITTED, NEEDS_INFO} \<longrightarrow>
            (\<exists>r. analyze_claim_enter now1 db cid = Returned r)
            \<and> fst (analyze_claim fmt process_claim now1 now2 db cid) = db)
       \<and> (Claim.status c \<in> {SUBMITTED, NEEDS_INFO} \<longrightarrow>
            (\<exists>db1. analyze_claim_enter now1 db cid = Awaiting db1 (submission c)
               \<and> status_of db1 = (status_of db)(cid \<mapsto> VALIDATING)
               \<and> analyze_claim fmt process_claim now1 now2 db cid =
                   analyze_claim_resume fmt now2 db1 cid (process_claim (submission c) cid)
               \<and> status_of (fst (analyze_claim_resume fmt now2 db1 cid
                                    (process_claim (submission c) cid))) =
                   (status_of db1)(cid \<mapsto>
                      (case process_claim (submission c) cid of
                         Inr a \<Rightarrow> overall_status a
                       | Inl e \<Rightarrow> SUBMITTED))))"
proof (intro conjI impI)
  assume "Claim.status c \<notin> {SUBMITTED, NEEDS_INFO}"
  then show "\<exists>r. analyze_claim_enter now1 db cid = Returned r"
    using assms by (simp add: analyze_claim_enter_def)
next
  assume "Claim.status c \<notin> {SUBMITTED, NEEDS_INFO}"
  then show "fst (analyze_claim fmt process_claim now1 now2 db cid) = db"
    using assms by (simp add: analyze_claim_def analyze_claim_enter_def)
next
  assume st: "Claim.status c \<in> {SUBMITTED, NEEDS_INFO}"
  define db1 where
    "db1 = AList.map_entry cid
             (\<lambda>c. c\<lparr>Claim.status := VALIDATING, Claim.updated_at := now1\<rparr>) db"
  have enter: "analyze_claim_enter now1 db cid = Awaiting db1 (submission c)"
    unfolding db1_def using assms st by (rule analyze_claim_enter_runs)
  have s1: "status_of db1 = (status_of db)(cid \<mapsto> VALIDATING)"
    unfolding db1_def using assms
    by (auto simp: status_of_map_entry status_of_def)
  have whole: "analyze_claim fmt process_claim now1 now2 db cid =
                 analyze_claim_resume fmt now2 db1 cid (process_claim (submission c) cid)"
    by (simp add: analyze_claim_def enter)
  have in1: "map_of db1 cid \<noteq> None"
    unfolding db1_def using assms by (simp add: map_of_map_entry)
  have s2: "status_of (fst (analyze_claim_resume fmt now2 db1 cid
                              (process_claim (submission c) cid))) =
              (status_of db1)(cid \<mapsto>
                 (case process_claim (submission c) cid of
                    Inr a \<Rightarrow> overall_status a
                  | Inl e \<Rightarrow> SUBMITTED))"
    using in1
    by (cases "process_claim (submission c) cid")
       (auto simp: analyze_claim_resume_def status_of_map_entry)
  show "\<exists>db1. analyze_claim_enter now1 db cid = Awaiting db1 (submission c)
               \<and> status_of db1 = (status_of db)(cid \<mapsto> VALIDATING)
               \<and> analyze_claim fmt process_claim now1 now2 db cid =
                   analyze_claim_resume fmt now2 db1 cid (process_claim (submission c) cid)
               \<and> status_of (fst (analyze_claim_resume fmt now2 db1 cid
                                    (process_claim (submission c) cid))) =
                   (status_of db1)(cid \<mapsto>
                      (case process_claim (submission c) cid of
                         Inr a \<Rightarrow> overall_status a
                       | Inl e \<Rightarrow> SUBMITTED))"
    using enter s1 whole s2 by blast
qed

theorem analyze_claim_status_changes_witness:
  "(\<exists>db1. analyze_claim_enter 5 [(''CLM-1'', ex_claim ''CLM-1'' NEEDS_INFO)] ''CLM-1'' =
            Awaiting db1 ex_submission
        \<and> status_of db1 ''CLM-1'' = Some VALIDATING
        \<and> status_of (fst (analyze_claim_resume ClaimStatus_value 6 db1 ''CLM-1''
                             (ex_deciding REJECTED ex_submission ''CLM-1''))) ''CLM-1'' =
            Some REJECTED)"
  using analyze_claim_status_changes
    [of "[(''CLM-1'', ex_claim ''CLM-1'' NEEDS_INFO)]" "''CLM-1''" "ex_claim ''CLM-1'' NEEDS_INFO"
        5 ClaimStatus_value "ex_deciding REJECTED" 6]
  by (auto simp: ex_claim_def ex_deciding_def ex_analysis_def)


subsection \<open>Two analyze requests in sequence\<close>

lemma map_of_analyze_claim:
  "map_of (fst (analyze_claim fmt pc n1 n2 db cid)) =
     (case map_of db cid of
        None \<Rightarrow> map_of db
      | Some c \<Rightarrow>
          if Claim.status c \<in> {SUBMITTED, NEEDS_INFO}
          then (map_of db)(cid \<mapsto> outcome_claim n2 c (pc (submission c) cid))
          else map_of db)"
proof (cases "map_of db cid")
  case None
  then show ?thesis by (simp add: analyze_claim_def analyze_claim_enter_def)
next
  case (Some c)
  show ?thesis
  proof (cases "Claim.status c \<in> {SUBMITTED, NEEDS_INFO}")
    case False
    with Some show ?thesis by (simp add: analyze_claim_def analyze_claim_enter_def)
  next
    case True
    with Some show ?thesis
      by (cases "pc (submission c) cid")
         (auto simp: analyze_claim_def analyze_claim_enter_runs analyze_claim_resume_def
            map_of_map_entry outcome_claim_def)
  qed
qed

lemma outcome_claim_fields:
  "submission (outcome_claim now c outcome) = submission c"
  "Claim.status (outcome_claim now c outcome) =
     (case outcome of Inr a \<Rightarrow> overall_status a | Inl e \<Rightarrow> SUBMITTED)"
  "Claim.analysis (outcome_claim now c outcome) =
     (case outcome of Inr a \<Rightarrow> Some a | Inl e \<Rightarrow> Claim.analysis c)"
  by (cases outcome; simp add: outcome_claim_def)+

lemma outcome_claim_twice:
  "Claim.status (outcome_claim n4 (outcome_claim n2 c outcome) outcome) =
     Claim.status (outcome_claim n2 c outcome)"
  "Claim.analysis (outcome_claim n4 (outcome_claim n2 c outcome) outcome) =
     Claim.analysis (outcome_claim n2 c outcome)"
  by (cases outcome; simp add: outcome_claim_def)+

lemma analyze_claim_twice_fields:
  "map_option Claim.status
     (map_of (fst (analyze_claim fmt pc n3 n4 (fst (analyze_claim fmt pc n1 n2 db cid)) cid)) k) =
   map_option Claim.status (map_of (fst (analyze_claim fmt pc n1 n2 db cid)) k)
   \<and> map_option Claim.analysis
     (map_of (fst (analyze_claim fmt pc n3 n4 (fst (analyze_claim fmt pc n1 n2 db cid)) cid)) k) =
   map_option Claim.analysis (map_of (fst (analyze_claim fmt pc n1 n2 db cid)) k)"
proof -
  define db1 where "db1 = fst (analyze_claim fmt pc n1 n2 db cid)"
  define db2 where "db2 = fst (analyze_claim fmt pc n3 n4 db1 cid)"
  have second: "map_of db2 =
     (case map_of db1 cid of
        None \<Rightarrow> map_of db1
      | Some c \<Rightarrow>
          if Claim.status c \<in> {SUBMITTED, NEEDS_INFO}
          then (map_of db1)(cid \<mapsto> outcome_claim n4 c (pc (submission c) cid))
          else map_of db1)"
    unfolding db2_def by (rule map_of_analyze_claim)
  have first: "map_of db1 =
     (case map_of db cid of
        None \<Rightarrow> map_of db
      | Some c \<Rightarrow>
          if Claim.status c \<in> {SUBMITTED, NEEDS_INFO}
          then (map_of db)(cid \<mapsto> outcome_claim n2 c (pc (submission c) cid))
          else map_of db)"
    unfolding db1_def by (rule map_of_analyze_claim)
  have "map_option Claim.status (map_of db2 k) = map_option Claim.status (map_of db1 k)
       \<and> map_option Claim.analysis (map_of db2 k) = map_option Claim.analysis (map_of db1 k)"
  proof (cases "map_of db1 cid")
    case None
    then show ?thesis by (simp add: second)
  next
    case (Some c1)
    show ?thesis
    proof (cases "Claim.status c1 \<in> {SUBMITTED, NEEDS_INFO}")
      case False
      with Some show ?thesis by (simp add: second)
    next
      case rerun: True
      have m2: "map_of db2 = (map_of db1)(cid \<mapsto> outcome_claim n4 c1 (pc (submission c1) cid))"
        using Some rerun by (simp add: second)
      show ?thesis
      proof (cases "map_of db cid")
        case None
        then have "map_of db1 cid = None" by (simp add: first)
        with Some show ?thesis by simp
      next
        case c: (Some c)
        show ?thesis
        proof (cases "Claim.status c \<in> {SUBMITTED, NEEDS_INFO}")
          case True
          then have "map_of db1 cid = Some (outcome_claim n2 c (pc (submission c) cid))"
            using c by (simp add: first)
          then have c1: "c1 = outcome_claim n2 c (pc (submission c) cid)"
            using Some by simp
          then have sub: "submission c1 = submission c"
            by (simp add: outcome_claim_fields)
          have "Claim.status (outcome_claim n4 c1 (pc (submission c1) cid)) = Claim.status c1"
            and "Claim.analysis (outcome_claim n4 c1 (pc (submission c1) cid)) = Claim.analysis c1"
            unfolding sub unfolding c1 by (rule outcome_claim_twice)+
          then show ?thesis
            using Some by (simp add: m2)
        next
          case False
          then have "map_of db1 = map_of db" using c by (simp add: first)
          then have "c1 = c" using Some c by simp
          with False rerun show ?thesis by simp
        qed
      qed
    qed
  qed
  then show ?thesis
    unfolding db2_def db1_def .
qed


text \<open>
  C5, as stated, fails: once a run has completed with \<open>approved\<close>, a second analyze
  request is answered "skipped" and the stored record stays as the first run left it (its
  \<open>updated_at\<close> is still the first run's), whatever the orchestrator would return now.
\<close>

theorem rerun_overwrites_counterexample:
  "analyze_claim ClaimStatus_value (ex_deciding APPROVED) 5 6
     [(''CLM-1'', ex_claim ''CLM-1'' SUBMITTED)] ''CLM-1'' =
     ([(''CLM-1'', ex_done ''CLM-1'' APPROVED 6)],
      Inr \<lparr>AnalysisTriggerResponse.claim_id = ''CLM-1'',
           AnalysisTriggerResponse.message = ''Claim analysis completed. Status: approved'',
           AnalysisTriggerResponse.status = ''completed''\<rparr>)
   \<and> analyze_claim ClaimStatus_value (ex_deciding APPROVED) 7 8
       [(''CLM-1'', ex_done ''CLM-1'' APPROVED 6)] ''CLM-1'' =
     ([(''CLM-1'', ex_done ''CLM-1'' APPROVED 6)],
      Inr \<lparr>AnalysisTriggerResponse.claim_id = ''CLM-1'',
           AnalysisTriggerResponse.message = ''Claim analysis already in progress or completed'',
           AnalysisTriggerResponse.status = ''skipped''\<rparr>)
   \<and> map_of (fst (analyze_claim ClaimStatus_value (ex_deciding APPROVED) 7 8
       [(''CLM-1'', ex_done ''CLM-1'' APPROVED 6)] ''CLM-1'')) ''CLM-1''
     \<noteq> Some (ex_done ''CLM-1'' APPROVED 8)
   \<and> analysis_of (fst (analyze_claim ClaimStatus_value (ex_deciding REJECTED) 7 8
       [(''CLM-1'', ex_done ''CLM-1'' APPROVED 6)] ''CLM-1'')) ''CLM-1''
     \<noteq> Some (Some (ex_analysis ''CLM-1'' REJECTED))"
  by (simp add: analyze_claim_def analyze_claim_enter_def analyze_claim_resume_def
      analysis_of_def ex_claim_def ex_done_def ex_deciding_def ex_analysis_def)

text \<open>
  C5, amended. With an orchestrator that is a function of the submission and the
  identifier, two analyze requests in sequence on the same identifier leave every claim
  with the status and the analysis it had after the first. If the first run completed
  with an overall status other than \<open>submitted\<close> and \<open>needs_info\<close>, the second request is
  answered "skipped" and the claim table is left as it was; if it completed with
  \<open>submitted\<close> or \<open>needs_info\<close>, the second request runs the orchestrator again, is
  answered "completed", and stores the same analysis and status with a new \<open>updated_at\<close>.
\<close>

theorem analyze_claim_twice:
  "status_of (fst (analyze_claim fmt pc n3 n4 (fst (analyze_claim fmt pc n1 n2 db cid)) cid)) =
     status_of (fst (analyze_claim fmt pc n1 n2 db cid))
   \<and> analysis_of (fst (analyze_claim fmt pc n3 n4 (fst (analyze_claim fmt pc n1 n2 db cid)) cid)) =
     analysis_of (fst (analyze_claim fmt pc n1 n2 db cid))
   \<and> (\<forall>c a. map_of db cid = Some c \<and> Claim.status c \<in> {SUBMITTED, NEEDS_INFO}
            \<and> pc (submission c) cid = Inr a \<longrightarrow>
         (overall_status a \<notin> {SUBMITTED, NEEDS_INFO} \<longrightarrow>
            analyze_claim fmt pc n3 n4 (fst (analyze_claim fmt pc n1 n2 db cid)) cid =
              (fst (analyze_claim fmt pc n1 n2 db cid),
               Inr \<lparr>AnalysisTriggerResponse.claim_id = cid,
                    AnalysisTriggerResponse.message =
                      ''Claim analysis already in progress or completed'',
                    AnalysisTriggerResponse.status = ''skipped''\<rparr>))
         \<and> (overall_status a \<in> {SUBMITTED, NEEDS_INFO} \<longrightarrow>
            snd (analyze_claim fmt pc n3 n4 (fst (analyze_claim fmt pc n1 n2 db cid)) cid) =
              Inr \<lparr>AnalysisTriggerResponse.claim_id = cid,
                   AnalysisTriggerResponse.message =
                     ''Claim analysis completed. Status: '' @ fmt (overall_status a),
                   AnalysisTriggerResponse.status = ''completed''\<rparr>
            \<and> map_of (fst (analyze_claim fmt pc n3 n4
                              (fst (analyze_claim fmt pc n1 n2 db cid)) cid)) cid =
                Some (c\<lparr>Claim.analysis := Some a, Claim.status := overall_status a,
                        Claim.updated_at := n4\<rparr>)))"
proof -
  define db1 where "db1 = fst (analyze_claim fmt pc n1 n2 db cid)"
  have 1: "status_of (fst (analyze_claim fmt pc n3 n4 db1 cid)) = status_of db1"
    unfolding db1_def status_of_def by (rule ext) (simp add: analyze_claim_twice_fields)
  have 2: "analysis_of (fst (analyze_claim fmt pc n3 n4 db1 cid)) = analysis_of db1"
    unfolding db1_def analysis_of_def by (rule ext) (simp add: analyze_claim_twice_fields)
  have 3: "analyze_claim fmt pc n3 n4 db1 cid =
              (db1, Inr \<lparr>AnalysisTriggerResponse.claim_id = cid,
                    AnalysisTriggerResponse.message =
                      ''Claim analysis already in progress or completed'',
                    AnalysisTriggerResponse.status = ''skipped''\<rparr>)"
    if "map_of db cid = Some c" "Claim.status c \<in> {SUBMITTED, NEEDS_INFO}"
      "pc (submission c) cid = Inr a" "overall_status a \<notin> {SUBMITTED, NEEDS_INFO}" for c a
  proof -
    have "map_of db1 cid = Some (outcome_claim n2 c (Inr a))"
      unfolding db1_def using that by (simp add: map_of_analyze_claim)
    moreover have "Claim.status (outcome_claim n2 c (Inr a)) = overall_status a"
      by (simp add: outcome_claim_def)
    ultimately show ?thesis
      using that(4) by (simp add: analyze_claim_def analyze_claim_enter_def)
  qed
  have 4: "snd (analyze_claim fmt pc n3 n4 db1 cid) =
              Inr \<lparr>AnalysisTriggerResponse.claim_id = cid,
                   AnalysisTriggerResponse.message =
                     ''Claim analysis completed. Status: '' @ fmt (overall_status a),
                   AnalysisTriggerResponse.status = ''completed''\<rparr>
            \<and> map_of (fst (analyze_claim fmt pc n3 n4 db1 cid)) cid =
                Some (c\<lparr>Claim.analysis := Some a, Claim.status := overall_status a,
                        Claim.updated_at := n4\<rparr>)"
    if "map_of db cid = Some c" "Claim.status c \<in> {SUBMITTED, NEEDS_INFO}"
      "pc (submission c) cid = Inr a" "overall_status a \<in> {SUBMITTED, NEEDS_INFO}" for c a
  proof -
    define c1 where "c1 = outcome_claim n2 c (Inr a)"
    have m1: "map_of db1 cid = Some c1"
      unfolding db1_def c1_def using that by (simp add: map_of_analyze_claim)
    have st1: "Claim.status c1 \<in> {SUBMITTED, NEEDS_INFO}"
      using that(4) by (simp add: c1_def outcome_claim_def)
    have sub1: "pc (submission c1) cid = Inr a"
      using that(3) by (simp add: c1_def outcome_claim_def)
    have "snd (analyze_claim fmt pc n3 n4 db1 cid) =
              Inr \<lparr>AnalysisTriggerResponse.claim_id = cid,
                   AnalysisTriggerResponse.message =
                     ''Claim analysis completed. Status: '' @ fmt (overall_status a),
                   AnalysisTriggerResponse.status = ''completed''\<rparr>"
      using sub1
      by (simp add: analyze_claim_def analyze_claim_enter_runs [OF m1 st1]
          analyze_claim_resume_def)
    moreover have "map_of (fst (analyze_claim fmt pc n3 n4 db1 cid)) cid =
        Some (outcome_claim n4 c1 (Inr a))"
      using m1 st1 sub1 by (simp add: map_of_analyze_claim)
    moreover have "outcome_claim n4 c1 (Inr a) =
        c\<lparr>Claim.analysis := Some a, Claim.status := overall_status a, Claim.updated_at := n4\<rparr>"
      by (simp add: c1_def outcome_claim_def)
    ultimately show ?thesis by simp
  qed
  show ?thesis
    using 1 2 3 4 unfolding db1_def by blast
qed

theorem analyze_claim_twice_witness:
  "analyze_claim ClaimStatus_value (ex_deciding REJECTED) 7 8
     (fst (analyze_claim ClaimStatus_value (ex_deciding REJECTED) 5 6
             [(''CLM-1'', ex_claim ''CLM-1'' SUBMITTED)] ''CLM-1'')) ''CLM-1'' =
     (fst (analyze_claim ClaimStatus_value (ex_deciding REJECTED) 5 6
             [(''CLM-1'', ex_claim ''CLM-1'' SUBMITTED)] ''CLM-1''),
      Inr \<lparr>AnalysisTriggerResponse.claim_id = ''CLM-1'',
           AnalysisTriggerResponse.message = ''Claim analysis already in progress or completed'',
           AnalysisTriggerResponse.status = ''skipped''\<rparr>)
   \<and> map_of (fst (analyze_claim ClaimStatus_value (ex_deciding NEEDS_INFO) 7 8
        (fst (analyze_claim ClaimStatus_value (ex_deciding NEEDS_INFO) 5 6
                [(''CLM-1'', ex_claim ''CLM-1'' SUBMITTED)] ''CLM-1'')) ''CLM-1'')) ''CLM-1'' =
     Some (ex_done ''CLM-1'' NEEDS_INFO 8)"
  using
    analyze_claim_twice
      [of ClaimStatus_value "ex_deciding REJECTED" 7 8 5 6
          "[(''CLM-1'', ex_claim ''CLM-1'' SUBMITTED)]" "''CLM-1''"]
    analyze_claim_twice
      [of ClaimStatus_value "ex_deciding NEEDS_INFO" 7 8 5 6
          "[(''CLM-1'', ex_claim ''CLM-1'' SUBMITTED)]" "''CLM-1''"]
  by (simp add: ex_claim_def ex_done_def ex_deciding_def ex_analysis_def)

subsection \<open>Interleaved analyze requests\<close>

lemma status_of_resume_other:
  "k \<noteq> cid \<Longrightarrow> status_of (fst (analyze_claim_resume fmt now db cid outcome)) k = status_of db k"
  by (cases outcome) (simp_all add: analyze_claim_resume_def status_of_map_entry)

lemma enter_Awaiting_D:
  assumes "analyze_claim_enter now db cid = Awaiting db1 sub"
  shows "status_of db cid \<in> {Some SUBMITTED, Some NEEDS_INFO}
       \<and> status_of db1 cid = Some VALIDATING
       \<and> (\<forall>k. k \<noteq> cid \<longrightarrow> status_of db1 k = status_of db k)"
  using assms
  by (auto simp: analyze_claim_enter_def status_of_def map_of_map_entry
      split: option.splits if_splits)

lemma enter_skips_validating:
  assumes "status_of db cid = Some VALIDATING"
  shows "analyze_claim_enter now db cid =
           Returned \<lparr>AnalysisTriggerResponse.claim_id = cid,
                     AnalysisTriggerResponse.message =
                       ''Claim analysis already in progress or completed'',
                     AnalysisTriggerResponse.status = ''skipped''\<rparr>"
  using assms by (auto simp: analyze_claim_enter_def status_of_def)

lemma run_inv_start: "run_inv (start db0)"
  by (simp add: run_inv_def start_def)

lemma run_inv_request:
  assumes "run_inv s"
  shows "run_inv (step fmt s (Request cid now))"
proof (cases "analyze_claim_enter now (claims_db s) cid")
  case (Raised e)
  with assms show ?thesis by (simp add: run_inv_def runs_on_def)
next
  case (Returned r)
  with assms show ?thesis by (simp add: run_inv_def runs_on_def)
next
  case (Awaiting db1 sub)
  note d = enter_Awaiting_D [OF Awaiting]
  have none: "snd p \<noteq> cid" if "p \<in> set (running s)" for p
  proof
    assume "snd p = cid"
    with assms that have "status_of (claims_db s) cid = Some VALIDATING"
      by (auto simp: run_inv_def)
    with d show False by simp
  qed
  then have empty: "filter (\<lambda>p. snd p = cid) (running s) = []"
    by (auto simp: filter_empty_conv)
  show ?thesis
    unfolding run_inv_def
  proof
    fix p
    assume "p \<in> set (running (step fmt s (Request cid now)))"
    then consider "p = (next_task s, cid)" | "p \<in> set (running s)"
      using Awaiting by auto
    then show "runs_on (step fmt s (Request cid now)) (snd p) = [p]
             \<and> status_of (claims_db (step fmt s (Request cid now))) (snd p) = Some VALIDATING"
    proof cases
      case 1
      then show ?thesis
        using Awaiting d empty by (simp add: runs_on_def)
    next
      case 2
      then have "snd p \<noteq> cid" by (rule none)
      moreover have "runs_on s (snd p) = [p]"
        and "status_of (claims_db s) (snd p) = Some VALIDATING"
        using assms 2 by (auto simp: run_inv_def)
      ultimately show ?thesis
        using Awaiting d by (auto simp: runs_on_def)
    qed
  qed
qed

lemma run_inv_finished:
  assumes "run_inv s"
  shows "run_inv (step fmt s (Finished t outcome now))"
proof (cases "map_of (running s) t")
  case None
  with assms show ?thesis by simp
next
  case (Some cid)
  then have mem: "(t, cid) \<in> set (running s)"
    by (rule map_of_SomeD)
  with assms have only: "runs_on s cid = [(t, cid)]"
    by (auto simp: run_inv_def)
  define s1 where "s1 = step fmt s (Finished t outcome now)"
  have run1: "running s1 = AList.delete t (running s)"
    and db1: "claims_db s1 = fst (analyze_claim_resume fmt now (claims_db s) cid outcome)"
    using Some by (simp_all add: s1_def split: prod.splits)
  have other: "status_of (claims_db s1) k = status_of (claims_db s) k" if "k \<noteq> cid" for k
    unfolding db1 using that by (rule status_of_resume_other)
  have "run_inv s1"
    unfolding run_inv_def
  proof
    fix p
    assume "p \<in> set (running s1)"
    then have p: "p \<in> set (running s)" and pt: "fst p \<noteq> t"
      by (auto simp: run1 AList.delete_eq)
    have one: "runs_on s (snd p) = [p]"
      and val: "status_of (claims_db s) (snd p) = Some VALIDATING"
      using assms p by (auto simp: run_inv_def)
    have ne: "snd p \<noteq> cid"
    proof
      assume "snd p = cid"
      with one only have "p = (t, cid)" by simp
      with pt show False by simp
    qed
    have "runs_on s1 (snd p) = filter (\<lambda>q. fst q \<noteq> t) (runs_on s (snd p))"
      by (auto simp: run1 runs_on_def AList.delete_eq case_prod_beta intro: filter_cong)
    then have "runs_on s1 (snd p) = [p]"
      using one pt by simp
    moreover have "status_of (claims_db s1) (snd p) = Some VALIDATING"
      using other [OF ne] val by simp
    ultimately show "runs_on s1 (snd p) = [p]
                   \<and> status_of (claims_db s1) (snd p) = Some VALIDATING"
      by simp
  qed
  then show ?thesis by (simp only: s1_def)
qed

lemma run_inv_step: "run_inv s \<Longrightarrow> run_inv (step fmt s e)"
  by (cases e) (simp_all only: run_inv_request run_inv_finished)

lemma run_inv_foldl: "run_inv s \<Longrightarrow> run_inv (foldl (step fmt) s es)"
  by (induction es arbitrary: s) (simp_all add: run_inv_step)

lemma run_inv_run: "run_inv (run fmt db0 es)"
  unfolding run_def by (rule run_inv_foldl) (rule run_inv_start)

lemma run_inv_length: "run_inv s \<Longrightarrow> length (runs_on s cid) \<le> 1"
proof (cases "runs_on s cid")
  case Nil
  then show ?thesis by simp
next
  case (Cons p ps)
  assume "run_inv s"
  have "p \<in> set (runs_on s cid)" using Cons by simp
  then have "p \<in> set (running s)" and "snd p = cid"
    by (auto simp: runs_on_def)
  with \<open>run_inv s\<close> have "runs_on s cid = [p]"
    by (auto simp: run_inv_def)
  then show ?thesis by simp
qed


text \<open>
  C8. Let analyze requests arrive and suspended requests resume in any order, each
  handler running alone between its await points. In every state that can be reached
  from a claim table with no request in flight, at most one request is suspended in the
  orchestrator for any claim identifier. A further analyze request for an identifier
  that has such a run is answered "skipped", and the claim table and the set of runs stay
  as they were. A request for a stored claim in \<open>submitted\<close> or \<open>needs_info\<close> with no run
  in flight proceeds and becomes the one run on that identifier.
\<close>

theorem one_active_run_per_claim:
  "length (runs_on (run fmt db0 es) cid) \<le> 1
   \<and> (runs_on (run fmt db0 es) cid \<noteq> [] \<longrightarrow>
        step fmt (run fmt db0 es) (Request cid now) =
          (run fmt db0 es)
            \<lparr>next_task := Suc (next_task (run fmt db0 es)),
             replies :=
               (next_task (run fmt db0 es),
                Inr \<lparr>AnalysisTriggerResponse.claim_id = cid,
                     AnalysisTriggerResponse.message =
                       ''Claim analysis already in progress or completed'',
                     AnalysisTriggerResponse.status = ''skipped''\<rparr>)
               # replies (run fmt db0 es)\<rparr>)
   \<and> (runs_on (run fmt db0 es) cid = []
        \<and> status_of (claims_db (run fmt db0 es)) cid \<in> {Some SUBMITTED, Some NEEDS_INFO} \<longrightarrow>
        runs_on (step fmt (run fmt db0 es) (Request cid now)) cid =
          [(next_task (run fmt db0 es), cid)])"
proof -
  define s where "s = run fmt db0 es"
  have inv: "run_inv s"
    unfolding s_def by (rule run_inv_run)
  have 1: "length (runs_on s cid) \<le> 1"
    using inv by (rule run_inv_length)
  have 2: "step fmt s (Request cid now) =
          s\<lparr>next_task := Suc (next_task s),
            replies :=
              (next_task s,
               Inr \<lparr>AnalysisTriggerResponse.claim_id = cid,
                    AnalysisTriggerResponse.message =
                      ''Claim analysis already in progress or completed'',
                    AnalysisTriggerResponse.status = ''skipped''\<rparr>)
              # replies s\<rparr>"
    if "runs_on s cid \<noteq> []"
  proof -
    from that obtain p where "p \<in> set (runs_on s cid)"
      by (cases "runs_on s cid") auto
    then have "p \<in> set (running s)" and "snd p = cid"
      by (auto simp: runs_on_def)
    with inv have "status_of (claims_db s) cid = Some VALIDATING"
      by (auto simp: run_inv_def)
    then show ?thesis
      by (simp add: enter_skips_validating)
  qed
  have 3: "runs_on (step fmt s (Request cid now)) cid = [(next_task s, cid)]"
    if "runs_on s cid = []"
      and "status_of (claims_db s) cid \<in> {Some SUBMITTED, Some NEEDS_INFO}"
  proof -
    from that(2) obtain c where "map_of (claims_db s) cid = Some c"
      and "Claim.status c \<in> {SUBMITTED, NEEDS_INFO}"
      by (auto simp: status_of_def)
    then have "analyze_claim_enter now (claims_db s) cid =
        Awaiting (AList.map_entry cid
                    (\<lambda>c. c\<lparr>Claim.status := VALIDATING, Claim.updated_at := now\<rparr>) (claims_db s))
                 (submission c)"
      by (rule analyze_claim_enter_runs)
    then show ?thesis
      using that(1) by (simp add: runs_on_def)
  qed
  show ?thesis
    using 1 2 3 unfolding s_def by blast
qed

theorem one_active_run_per_claim_witness:
  "length (runs_on (run ClaimStatus_value [(''CLM-1'', ex_claim ''CLM-1'' SUBMITTED)]
                      [Request ''CLM-1'' 5]) ''CLM-1'') \<le> 1
   \<and> runs_on (run ClaimStatus_value [(''CLM-1'', ex_claim ''CLM-1'' SUBMITTED)]
                [Request ''CLM-1'' 5]) ''CLM-1'' = [(0, ''CLM-1'')]
   \<and> step ClaimStatus_value
        (run ClaimStatus_value [(''CLM-1'', ex_claim ''CLM-1'' SUBMITTED)] [Request ''CLM-1'' 5])
        (Request ''CLM-1'' 6) =
      \<lparr>claims_db = [(''CLM-1'', (ex_claim ''CLM-1'' SUBMITTED)
                                  \<lparr>Claim.status := VALIDATING, Claim.updated_at := 5\<rparr>)],
       running = [(0, ''CLM-1'')], next_task = 2,
       replies =
         [(1, Inr \<lparr>AnalysisTriggerResponse.claim_id = ''CLM-1'',
                   AnalysisTriggerResponse.message =
                     ''Claim analysis already in progress or completed'',
                   AnalysisTriggerResponse.status = ''skipped''\<rparr>)]\<rparr>
   \<and> runs_on (step ClaimStatus_value
                (run ClaimStatus_value [(''CLM-1'', ex_claim ''CLM-1'' SUBMITTED)] [])
                (Request ''CLM-1'' 5)) ''CLM-1'' = [(0, ''CLM-1'')]"
  using
    one_active_run_per_claim
      [of ClaimStatus_value "[(''CLM-1'', ex_claim ''CLM-1'' SUBMITTED)]"
          "[Request ''CLM-1'' 5]" "''CLM-1''" 6]
    one_active_run_per_claim
      [of ClaimStatus_value "[(''CLM-1'', ex_claim ''CLM-1'' SUBMITTED)]"
          "[]" "''CLM-1''" 5]
  by (simp add: run_def start_def runs_on_def status_of_def analyze_claim_enter_def
      ex_claim_def)

end
